theory Spec2Isabelle
  imports Main
begin

section \<open>A shallow embedding of the job scraper (services/scrap/main.py)\<close>

text \<open>
  The module pulls job postings from Greenhouse boards, keeps the postings whose title
  names a technical keyword, builds one Firestore document per posting and commits all
  of them in one batch.

  Text is modelled as \<open>string\<close> with the ASCII reading of Python's \<open>str\<close> methods:
  \<open>lower\<close>, \<open>title\<close>, \<open>capitalize\<close> change the letters A-Z and a-z only, and the
  word characters of \<open>\b\<close> are the ASCII letters, the digits and the underscore. On
  text of ASCII characters this is what Python computes; outside ASCII Python also knows
  the letters and the case pairs of Unicode, so the properties of the keyword search are
  stated for ASCII text.
\<close>

subsection \<open>Configuration\<close>

definition TARGET_COMPANIES :: "string list" where
  "TARGET_COMPANIES = [''figma'', ''discord'', ''dropbox'', ''duolingo'']"

definition TECH_KEYWORDS :: "string list" where
  "TECH_KEYWORDS =
     [''software'', ''developer'', ''engineer'', ''data'', ''analytics'', ''analyst'',
      ''machine learning'', ''python'', ''full stack'', ''frontend'', ''backend'',
      ''cloud'', ''devops'', ''security'', ''it'', ''artificial intelligence'', ''ai'',
      ''react'']"

subsection \<open>Python's string methods, on ASCII\<close>

definition is_upper :: "char \<Rightarrow> bool" where
  "is_upper c = (65 \<le> (of_char c :: nat) \<and> (of_char c :: nat) \<le> 90)"

definition is_lower :: "char \<Rightarrow> bool" where
  "is_lower c = (97 \<le> (of_char c :: nat) \<and> (of_char c :: nat) \<le> 122)"

definition is_digit :: "char \<Rightarrow> bool" where
  "is_digit c = (48 \<le> (of_char c :: nat) \<and> (of_char c :: nat) \<le> 57)"

definition is_word_char :: "char \<Rightarrow> bool" where
  \<comment> \<open>the class \<open>\w\<close> of the module \<open>re\<close>\<close>
  "is_word_char c = (is_upper c \<or> is_lower c \<or> is_digit c \<or> c = CHR ''_'')"

definition lower_char :: "char \<Rightarrow> char" where
  "lower_char c = (if is_upper c then char_of ((of_char c :: nat) + 32) else c)"

definition upper_char :: "char \<Rightarrow> char" where
  "upper_char c = (if is_lower c then char_of ((of_char c :: nat) - 32) else c)"

definition py_lower :: "string \<Rightarrow> string" where
  \<comment> \<open>\<open>s.lower()\<close>\<close>
  "py_lower s = map lower_char s"

fun title_from :: "bool \<Rightarrow> string \<Rightarrow> string" where
  \<comment> \<open>the flag says whether the previous character was a cased letter\<close>
  "title_from prev [] = []"
| "title_from prev (c # cs) =
     (if is_upper c \<or> is_lower c
      then (if prev then lower_char c else upper_char c) # title_from True cs
      else c # title_from False cs)"

definition py_title :: "string \<Rightarrow> string" where
  \<comment> \<open>\<open>s.title()\<close>\<close>
  "py_title s = title_from False s"

definition py_capitalize :: "string \<Rightarrow> string" where
  \<comment> \<open>\<open>s.capitalize()\<close>: the first character upper-cased, the rest lower-cased\<close>
  "py_capitalize s = (case s of [] \<Rightarrow> [] | c # cs \<Rightarrow> upper_char c # py_lower cs)"

definition py_in :: "string \<Rightarrow> string \<Rightarrow> bool" where
  \<comment> \<open>\<open>sub in s\<close> on strings\<close>
  "py_in sub s = list_ex (\<lambda>i. take (length sub) (drop i s) = sub) [0..<Suc (length s)]"

subsection \<open>The regular expression \<open>\b\<close> keyword \<open>\b\<close>\<close>

text \<open>
  \<open>re.escape(kw)\<close> makes the pattern match the keyword literally. \<open>\b\<close> holds at
  position \<open>p\<close> when exactly one of the characters before and after \<open>p\<close> is a word
  character; outside the text there is no word character.
\<close>

definition word_at :: "string \<Rightarrow> nat \<Rightarrow> bool" where
  "word_at s p = (p < length s \<and> is_word_char (s ! p))"

definition word_boundary :: "string \<Rightarrow> nat \<Rightarrow> bool" where
  "word_boundary s p = ((0 < p \<and> word_at s (p - 1)) \<noteq> word_at s p)"

definition match_at :: "string \<Rightarrow> string \<Rightarrow> nat \<Rightarrow> bool" where
  "match_at kw s i =
     (word_boundary s i \<and> take (length kw) (drop i s) = kw \<and> word_boundary s (i + length kw))"

definition re_search_word :: "string \<Rightarrow> string \<Rightarrow> bool" where
  \<comment> \<open>\<open>re.search(rf'\b{re.escape(kw)}\b', s)\<close> finds a match\<close>
  "re_search_word kw s = list_ex (match_at kw s) [0..<Suc (length s)]"

subsection \<open>extract\_tags\<close>

text \<open>
  \<open>list(set(found_tags))\<close> lists each tag once, in the iteration order of a Python set
  of strings. That order comes from the hashes of the strings, which change with the
  hash seed of the process, so it is a parameter: \<open>list_of_set xs\<close> is \<open>list(set(xs))\<close>
  in the running process.
\<close>

definition extract_tags :: "(string list \<Rightarrow> string list) \<Rightarrow> string \<Rightarrow> string \<Rightarrow> string list" where
  "extract_tags list_of_set title description =
     (let combined_text = py_lower (title @ '' '' @ description);
          found_tags = map py_title (filter (\<lambda>kw. re_search_word kw combined_text) TECH_KEYWORDS)
      in list_of_set found_tags)"

subsection \<open>Values read from the upstream JSON\<close>

text \<open>
  \<open>response.json()\<close> yields Python values: \<open>None\<close>, booleans, integers, strings, lists
  and dicts (numbers are integers here, as Greenhouse ids are). A dict is its list of
  bindings, looked up from the front. The code applies \<open>.get\<close>, \<open>.lower()\<close> and a
  \<open>for\<close> loop to whatever value it got, so each of them raises on the wrong kind.
\<close>

datatype json = JNull | JBool bool | JInt int | JStr string | JArr "json list"
  | JObj "(string \<times> json) list"

datatype py_error = AttributeError | TypeError | Raised string
  \<comment> \<open>\<open>Raised name\<close>: an exception coming out of requests, json, bs4 or firestore\<close>

definition dict_get :: "(string \<times> json) list \<Rightarrow> string \<Rightarrow> json \<Rightarrow> json" where
  \<comment> \<open>\<open>d.get(key, default)\<close>\<close>
  "dict_get d key dflt = (case map_of d key of None \<Rightarrow> dflt | Some v \<Rightarrow> v)"

fun py_falsy :: "json \<Rightarrow> bool" where
  \<comment> \<open>\<open>not v\<close>\<close>
  "py_falsy JNull = True"
| "py_falsy (JBool b) = (\<not> b)"
| "py_falsy (JInt i) = (i = 0)"
| "py_falsy (JStr s) = (s = [])"
| "py_falsy (JArr xs) = (xs = [])"
| "py_falsy (JObj d) = (d = [])"

fun py_iter :: "json \<Rightarrow> py_error + json list" where
  \<comment> \<open>the items a \<open>for\<close> loop over the value visits\<close>
  "py_iter (JArr xs) = Inr xs"
| "py_iter (JStr s) = Inr (map (\<lambda>c. JStr [c]) s)"
| "py_iter (JObj d) = Inr (map (\<lambda>kv. JStr (fst kv)) d)"
| "py_iter _ = Inl TypeError"

definition digit_char :: "nat \<Rightarrow> char" where
  "digit_char n = char_of (48 + n)"

function str_nat :: "nat \<Rightarrow> string" where
  "str_nat n = (if n < 10 then [digit_char n] else str_nat (n div 10) @ [digit_char (n mod 10)])"
  by pat_completeness auto
termination
  by (relation "measure id") auto

declare str_nat.simps [simp del]

definition str_int :: "int \<Rightarrow> string" where
  "str_int i = (if i < 0 then CHR ''-'' # str_nat (nat (- i)) else str_nat (nat i))"

fun py_str :: "(json \<Rightarrow> string) \<Rightarrow> json \<Rightarrow> string" where
  \<comment> \<open>\<open>str(v)\<close>; the text of a list or a dict is left to the parameter\<close>
  "py_str rc JNull = ''None''"
| "py_str rc (JBool b) = (if b then ''True'' else ''False'')"
| "py_str rc (JInt i) = str_int i"
| "py_str rc (JStr s) = s"
| "py_str rc v = rc v"

subsection \<open>The documents and the world around the module\<close>

record source_meta =
  sourceId :: string
  externalId :: string

record normalized_fields =
  companyLower :: string
  titleLower :: string

record job_document =
  title :: string
  company :: string
  location :: json
  jobType :: string
  applyUrl :: json
  jdText :: string
  tags :: "string list"
  source :: string
  sourceMeta :: source_meta
  visibility :: string
  instituteId :: json
  ownerUid :: json
  status :: string
  postedAt :: json
  lastSeenAt :: string
  createdAt :: string
  updatedAt :: string
  normalized :: normalized_fields

record response =
  status_code :: int
  json_body :: "py_error + json"  \<comment> \<open>what \<open>response.json()\<close> returns or raises\<close>

type_synonym write_batch = "(string \<times> job_document) list"

type_synonym jobs_store = "string \<rightharpoonup> job_document"

record env =
  requests_get :: "string \<Rightarrow> py_error + response"
    \<comment> \<open>\<open>requests.get(url)\<close>: a response, or the exception of a transport failure\<close>
  soup_text :: "json \<Rightarrow> py_error + string"
    \<comment> \<open>\<open>html.unescape\<close>, \<open>BeautifulSoup\<close>, the three \<open>decompose\<close> loops and
        \<open>get_text\<close>, on a value that is not falsy\<close>
  container_repr :: "json \<Rightarrow> string"
    \<comment> \<open>\<open>str\<close> of a list or a dict\<close>
  batch_commit :: "write_batch \<Rightarrow> py_error option"
    \<comment> \<open>\<open>batch.commit()\<close>: \<open>Some e\<close> when Firestore refuses the batch\<close>
  set_order :: "string list \<Rightarrow> string list"
    \<comment> \<open>\<open>list(set(xs))\<close> under the hash seed of the process\<close>

subsection \<open>clean\_html\_text\<close>

definition clean_html_text :: "env \<Rightarrow> json \<Rightarrow> py_error + string" where
  "clean_html_text ev raw_html =
     (if py_falsy raw_html then Inr ''Not specified'' else soup_text ev raw_html)"

subsection \<open>sync\_scraped\_jobs\_to\_firebase\<close>

definition jobs_url :: "string \<Rightarrow> string" where
  "jobs_url company_slug =
     ''https://boards-api.greenhouse.io/v1/boards/'' @ company_slug @ ''/jobs?content=true''"

definition strict_tech_filter :: "string \<Rightarrow> bool" where
  \<comment> \<open>\<open>any(re.search(rf'\b{re.escape(kw)}\b', title_lower) for kw in TECH_KEYWORDS)\<close>\<close>
  "strict_tech_filter title_lower = list_ex (\<lambda>kw. re_search_word kw title_lower) TECH_KEYWORDS"

record sync_state =
  batch :: write_batch
  upload_count :: nat

text \<open>
  The body of the inner loop, for one \<open>job\<close> of one \<open>company\<close>: \<open>Inr\<close> the state after
  it (unchanged when the filter says \<open>continue\<close>), \<open>Inl\<close> the exception it raises.
\<close>

definition process_job :: "env \<Rightarrow> string \<Rightarrow> string \<Rightarrow> sync_state \<Rightarrow> json \<Rightarrow> py_error + sync_state" where
  "process_job ev now_iso company_slug st job =
     (case job of
        JObj d \<Rightarrow>
          (case dict_get d ''title'' (JStr []) of
             JStr title_str \<Rightarrow>
               (let title_lower = py_lower title_str in
                if \<not> strict_tech_filter title_lower then Inr st
                else
                  (let job_id = py_str (container_repr ev) (dict_get d ''id'' JNull);
                       external_id = ''gh-'' @ job_id;
                       raw_html = dict_get d ''content'' (JStr [])
                   in case clean_html_text ev raw_html of
                        Inl e \<Rightarrow> Inl e
                      | Inr clean_description \<Rightarrow>
                          (case dict_get d ''location'' (JObj []) of
                             JObj loc \<Rightarrow>
                               (let job_doc =
                                  \<lparr>title = title_str,
                                   company = py_capitalize company_slug,
                                   location = dict_get loc ''name'' (JStr ''Remote''),
                                   jobType = (if py_in ''intern'' title_lower
                                              then ''Internship'' else ''Full-time''),
                                   applyUrl = dict_get d ''absolute_url'' JNull,
                                   jdText = clean_description,
                                   tags = extract_tags (set_order ev) title_str clean_description,
                                   source = ''scraped'',
                                   sourceMeta = \<lparr>sourceId = ''scrape_sources/greenhouse'',
                                                 externalId = external_id\<rparr>,
                                   visibility = ''public'',
                                   instituteId = JNull,
                                   ownerUid = JNull,
                                   status = ''open'',
                                   postedAt = dict_get d ''updated_at'' (JStr now_iso),
                                   lastSeenAt = now_iso,
                                   createdAt = now_iso,
                                   updatedAt = now_iso,
                                   normalized = \<lparr>companyLower = py_lower company_slug,
                                                 titleLower = title_lower\<rparr>\<rparr>
                                in Inr \<lparr>batch = batch st @ [(external_id, job_doc)],
                                        upload_count = upload_count st + 1\<rparr>)
                           | _ \<Rightarrow> Inl AttributeError)))
           | _ \<Rightarrow> Inl AttributeError)
      | _ \<Rightarrow> Inl AttributeError)"

fun sync_jobs :: "env \<Rightarrow> string \<Rightarrow> string \<Rightarrow> sync_state \<Rightarrow> json list \<Rightarrow> py_error + sync_state" where
  "sync_jobs ev now_iso company_slug st [] = Inr st"
| "sync_jobs ev now_iso company_slug st (job # jobs) =
     (case process_job ev now_iso company_slug st job of
        Inl e \<Rightarrow> Inl e
      | Inr st' \<Rightarrow> sync_jobs ev now_iso company_slug st' jobs)"

definition sync_company :: "env \<Rightarrow> string \<Rightarrow> sync_state \<Rightarrow> string \<Rightarrow> py_error + sync_state" where
  \<comment> \<open>the body of the outer loop\<close>
  "sync_company ev now_iso st company_slug =
     (case requests_get ev (jobs_url company_slug) of
        Inl e \<Rightarrow> Inl e
      | Inr resp \<Rightarrow>
          if status_code resp = 200 then
            (case json_body resp of
               Inl e \<Rightarrow> Inl e
             | Inr (JObj body) \<Rightarrow>
                 (case py_iter (dict_get body ''jobs'' (JArr [])) of
                    Inl e \<Rightarrow> Inl e
                  | Inr jobs \<Rightarrow> sync_jobs ev now_iso company_slug st jobs)
             | Inr _ \<Rightarrow> Inl AttributeError)
          else Inr st)"

fun sync_companies :: "env \<Rightarrow> string \<Rightarrow> sync_state \<Rightarrow> string list \<Rightarrow> py_error + sync_state" where
  "sync_companies ev now_iso st [] = Inr st"
| "sync_companies ev now_iso st (c # cs) =
     (case sync_company ev now_iso st c of
        Inl e \<Rightarrow> Inl e
      | Inr st' \<Rightarrow> sync_companies ev now_iso st' cs)"

datatype http_error = HTTPException int py_error
  \<comment> \<open>\<open>HTTPException(status_code=500, detail=str(e))\<close>\<close>

record sync_response =
  resp_status :: string
  message :: string
  synced_count :: nat

definition success_response :: "nat \<Rightarrow> sync_response" where
  "success_response n =
     \<lparr>resp_status = ''success'',
      message = ''Successfully scraped and pushed '' @ str_nat n
                @ '' jobs to Firebase Firestore in one batch!'',
      synced_count = n\<rparr>"

definition apply_batch :: "write_batch \<Rightarrow> jobs_store \<Rightarrow> jobs_store" where
  \<comment> \<open>a committed batch: every \<open>set\<close> of it, in order\<close>
  "apply_batch b db = fold (\<lambda>kd m. m(fst kd \<mapsto> snd kd)) b db"

record outcome =
  result :: "http_error + sync_response"
  store :: jobs_store                 \<comment> \<open>the collection \<open>jobs\<close> after the cycle\<close>
  commits :: "write_batch list"       \<comment> \<open>the batches \<open>commit()\<close> was called on\<close>

definition sync_cycle :: "env \<Rightarrow> string \<Rightarrow> string list \<Rightarrow> jobs_store \<Rightarrow> outcome" where
  \<comment> \<open>the body of the endpoint, for a list of companies, a clock reading and a store\<close>
  "sync_cycle ev now_iso companies db =
     (case sync_companies ev now_iso \<lparr>batch = [], upload_count = 0\<rparr> companies of
        Inl e \<Rightarrow> \<lparr>result = Inl (HTTPException 500 e), store = db, commits = []\<rparr>
      | Inr st \<Rightarrow>
          if upload_count st > 0 then
            (case batch_commit ev (batch st) of
               Some e \<Rightarrow> \<lparr>result = Inl (HTTPException 500 e), store = db, commits = [batch st]\<rparr>
             | None \<Rightarrow> \<lparr>result = Inr (success_response (upload_count st)),
                        store = apply_batch (batch st) db, commits = [batch st]\<rparr>)
          else \<lparr>result = Inr (success_response (upload_count st)), store = db, commits = []\<rparr>)"

definition sync_scraped_jobs_to_firebase :: "env \<Rightarrow> string \<Rightarrow> jobs_store \<Rightarrow> outcome" where
  "sync_scraped_jobs_to_firebase ev now_iso db = sync_cycle ev now_iso TARGET_COMPANIES db"

section \<open>Notions of the specification\<close>




text \<open>
  What every hash seed gives for \<open>list(set(xs))\<close>: the elements of \<open>xs\<close>, each once,
  in some order.
\<close>

definition valid_set_order :: "(string list \<Rightarrow> string list) \<Rightarrow> bool" where
  "valid_set_order f \<longleftrightarrow> (\<forall>xs. distinct (f xs) \<and> set (f xs) = set xs)"


text \<open>
  The write the loop body stages for one posting, started on an empty batch: the
  document key and the document, or nothing when the posting is skipped or raises.
\<close>

definition staged_document :: "env \<Rightarrow> string \<Rightarrow> string \<Rightarrow> json \<Rightarrow> (string \<times> job_document) option" where
  "staged_document ev now_iso company_slug job =
     (case process_job ev now_iso company_slug \<lparr>batch = [], upload_count = 0\<rparr> job of
        Inl e \<Rightarrow> None
      | Inr st \<Rightarrow> (case batch st of [] \<Rightarrow> None | kd # _ \<Rightarrow> Some kd))"

text \<open>
  The postings the inner loop visits for one company: those of the answer when its
  status is 200, none for another status, or the exception of the request, of
  \<open>response.json()\<close>, of \<open>.get\<close> or of the \<open>for\<close> statement.
\<close>

definition fetched_jobs :: "env \<Rightarrow> string \<Rightarrow> py_error + json list" where
  "fetched_jobs ev company_slug =
     (case requests_get ev (jobs_url company_slug) of
        Inl e \<Rightarrow> Inl e
      | Inr resp \<Rightarrow>
          if status_code resp = 200 then
            (case json_body resp of
               Inl e \<Rightarrow> Inl e
             | Inr (JObj body) \<Rightarrow> py_iter (dict_get body ''jobs'' (JArr []))
             | Inr _ \<Rightarrow> Inl AttributeError)
          else Inr [])"

text \<open>
  A source completes when its postings are fetched without an exception and the loop
  body raises on none of them.
\<close>

definition source_completes :: "env \<Rightarrow> string \<Rightarrow> string \<Rightarrow> bool" where
  "source_completes ev now_iso company_slug =
     (case fetched_jobs ev company_slug of
        Inl e \<Rightarrow> False
      | Inr jobs \<Rightarrow>
          list_all (\<lambda>job. \<not> isl (process_job ev now_iso company_slug
                                      \<lparr>batch = [], upload_count = 0\<rparr> job)) jobs)"

text \<open>The documents of the relevant postings of the sources, in the order of the loops.\<close>

definition staged_by_company :: "env \<Rightarrow> string \<Rightarrow> string \<Rightarrow> write_batch" where
  "staged_by_company ev now_iso company_slug =
     (case fetched_jobs ev company_slug of
        Inl e \<Rightarrow> []
      | Inr jobs \<Rightarrow> List.map_filter (staged_document ev now_iso company_slug) jobs)"

definition staged_batch :: "env \<Rightarrow> string \<Rightarrow> string list \<Rightarrow> write_batch" where
  "staged_batch ev now_iso companies = concat (map (staged_by_company ev now_iso) companies)"

section \<open>Example inputs\<close>

text \<open>
  A small world to run the definitions in: one board answers with two postings, every
  other board is unavailable; the HTML library is replaced by a function that returns a
  string as it is and raises on anything else.
\<close>

definition demo_now :: string where
  "demo_now = ''2026-01-05T09:00:00+00:00''"

definition intern_job :: json where
  "intern_job = JObj [(''id'', JInt 7), (''title'', JStr ''AI Intern'')]"

definition office_job :: json where
  "office_job = JObj [(''id'', JInt 8), (''title'', JStr ''Office Manager''), (''content'', JInt 5)]"

definition broken_job :: json where
  "broken_job = JObj [(''id'', JInt 9), (''title'', JStr ''AI Lead''), (''location'', JNull)]"

definition demo_soup :: "json \<Rightarrow> py_error + string" where
  "demo_soup v = (case v of JStr s \<Rightarrow> Inr s | _ \<Rightarrow> Inl TypeError)"

definition ok_response :: "json list \<Rightarrow> response" where
  "ok_response jobs = \<lparr>status_code = 200, json_body = Inr (JObj [(''jobs'', JArr jobs)])\<rparr>"

definition unavailable_response :: response where
  "unavailable_response = \<lparr>status_code = 503, json_body = Inl (Raised ''JSONDecodeError'')\<rparr>"

definition demo_get :: "string \<Rightarrow> py_error + response" where
  "demo_get url =
     (if url = jobs_url ''figma'' then Inr (ok_response [intern_job, office_job])
      else Inr unavailable_response)"

definition demo_env :: env where
  "demo_env = \<lparr>requests_get = demo_get, soup_text = demo_soup,
                container_repr = (\<lambda>v. ''[]''), batch_commit = (\<lambda>b. None),
                set_order = remdups\<rparr>"

definition intern_doc :: job_document where
  "intern_doc =
     \<lparr>title = ''AI Intern'', company = ''Figma'', location = JStr ''Remote'',
      jobType = ''Internship'', applyUrl = JNull, jdText = ''Not specified'',
      tags = [''Ai''], source = ''scraped'',
      sourceMeta = \<lparr>sourceId = ''scrape_sources/greenhouse'', externalId = ''gh-7''\<rparr>,
      visibility = ''public'', instituteId = JNull, ownerUid = JNull, status = ''open'',
      postedAt = JStr demo_now, lastSeenAt = demo_now, createdAt = demo_now,
      updatedAt = demo_now,
      normalized = \<lparr>companyLower = ''figma'', titleLower = ''ai intern''\<rparr>\<rparr>"

definition intern_doc_discord :: job_document where
  "intern_doc_discord =
     intern_doc\<lparr>company := ''Discord'',
                normalized := \<lparr>companyLower = ''discord'', titleLower = ''ai intern''\<rparr>\<rparr>"

text \<open>The collection before the cycle, with no document.\<close>

definition empty_store :: jobs_store where
  "empty_store = Map.empty"

text \<open>A board whose second posting has \<open>null\<close> for its location.\<close>

definition broken_get :: "string \<Rightarrow> py_error + response" where
  "broken_get url =
     (if url = jobs_url ''figma'' then Inr (ok_response [intern_job, broken_job, office_job])
      else Inr unavailable_response)"

definition broken_env :: env where
  "broken_env = demo_env\<lparr>requests_get := broken_get\<rparr>"

text \<open>A posting with two tags, and a process whose sets iterate the other way round.\<close>

definition two_tag_job :: json where
  "two_tag_job = JObj [(''id'', JInt 7), (''title'', JStr ''AI Data''), (''content'', JStr ''x'')]"

definition two_tag_doc :: job_document where
  "two_tag_doc =
     \<lparr>title = ''AI Data'', company = ''Figma'', location = JStr ''Remote'',
      jobType = ''Full-time'', applyUrl = JNull, jdText = ''x'',
      tags = [''Data'', ''Ai''], source = ''scraped'',
      sourceMeta = \<lparr>sourceId = ''scrape_sources/greenhouse'', externalId = ''gh-7''\<rparr>,
      visibility = ''public'', instituteId = JNull, ownerUid = JNull, status = ''open'',
      postedAt = JStr demo_now, lastSeenAt = demo_now, createdAt = demo_now,
      updatedAt = demo_now,
      normalized = \<lparr>companyLower = ''figma'', titleLower = ''ai data''\<rparr>\<rparr>"

definition reversed_order :: "string list \<Rightarrow> string list" where
  "reversed_order xs = rev (remdups xs)"

definition seed2_env :: env where
  "seed2_env = demo_env\<lparr>set_order := reversed_order\<rparr>"

text \<open>A board that cannot be reached, while the others have no relevant posting.\<close>

definition quiet_get :: "string \<Rightarrow> py_error + response" where
  "quiet_get url =
     (if url = jobs_url ''figma'' then Inl (Raised ''ConnectionError'')
      else Inr (ok_response [office_job]))"

definition quiet_env :: env where
  "quiet_env = demo_env\<lparr>requests_get := quiet_get\<rparr>"

text \<open>A board that cannot be reached, while the others answer.\<close>

definition down_get :: "string \<Rightarrow> py_error + response" where
  "down_get url =
     (if url = jobs_url ''figma'' then Inl (Raised ''ConnectionError'')
      else Inr (ok_response [intern_job]))"

definition down_env :: env where
  "down_env = demo_env\<lparr>requests_get := down_get\<rparr>"

section \<open>Properties\<close>

subsection \<open>Characters and the keyword search\<close>


lemma of_char_lower_char:
  "(of_char (lower_char c) :: nat) = (if is_upper c then of_char c + 32 else of_char c)"
  by (simp add: lower_char_def is_upper_def)

lemma underscore_code: "(c = CHR ''_'') = ((of_char c :: nat) = 95)"
proof -
  have "(of_char (CHR ''_'') :: nat) = 95" by simp
  then show ?thesis by (metis of_char_eq_iff)
qed

lemma is_word_char_lower_char [simp]: "is_word_char (lower_char c) = is_word_char c"
  unfolding is_word_char_def underscore_code is_upper_def is_lower_def is_digit_def of_char_lower_char
  by (auto simp: is_upper_def)

lemma lower_char_idem [simp]: "lower_char (lower_char c) = lower_char c"
proof -
  have "\<not> is_upper (lower_char c)"
    unfolding is_upper_def of_char_lower_char by (auto simp: is_upper_def)
  then show ?thesis by (simp add: lower_char_def)
qed



lemma match_at_code [code]:
  "match_at kw s i =
     (if take (length kw) (drop i s) = kw
      then word_boundary s i \<and> word_boundary s (i + length kw) else False)"
  by (auto simp: match_at_def)










lemma py_lower_Nil_iff [simp]: "py_lower s = [] \<longleftrightarrow> s = []"
  by (simp add: py_lower_def)






lemma valid_remdups: "valid_set_order remdups"
  by (simp add: valid_set_order_def)

subsection \<open>The tags of a posting\<close>



subsection \<open>The loop body\<close>



lemma process_job_state:
  "process_job ev now c st job =
     (case process_job ev now c \<lparr>batch = [], upload_count = 0\<rparr> job of
        Inl e \<Rightarrow> Inl e
      | Inr s0 \<Rightarrow> Inr \<lparr>batch = batch st @ batch s0, upload_count = upload_count st + upload_count s0\<rparr>)"
  by (simp add: process_job_def Let_def split: json.splits sum.splits)

lemma process_job_skip:
  assumes "dict_get d ''title'' (JStr []) = JStr t" and "\<not> strict_tech_filter (py_lower t)"
  shows "process_job ev now c st (JObj d) = Inr st"
  using assms by (simp add: process_job_def)


lemma process_job_not_dict: "\<forall>d. job \<noteq> JObj d \<Longrightarrow> process_job ev now c st job = Inl AttributeError"
  by (cases job) (simp_all add: process_job_def)

lemma process_job_title_not_str:
  "\<forall>t. dict_get d ''title'' (JStr []) \<noteq> JStr t \<Longrightarrow> process_job ev now c st (JObj d) = Inl AttributeError"
  by (cases "dict_get d ''title'' (JStr [])") (simp_all add: process_job_def)

lemma process_job_clean_raises:
  assumes "dict_get d ''title'' (JStr []) = JStr t" and "strict_tech_filter (py_lower t)"
    and "clean_html_text ev (dict_get d ''content'' (JStr [])) = Inl e"
  shows "process_job ev now c st (JObj d) = Inl e"
  using assms by (simp add: process_job_def)

lemma process_job_location_not_dict:
  assumes "dict_get d ''title'' (JStr []) = JStr t" and "strict_tech_filter (py_lower t)"
    and "clean_html_text ev (dict_get d ''content'' (JStr [])) = Inr desc"
    and "\<forall>loc. dict_get d ''location'' (JObj []) \<noteq> JObj loc"
  shows "process_job ev now c st (JObj d) = Inl AttributeError"
  using assms by (cases "dict_get d ''location'' (JObj [])") (simp_all add: process_job_def)

lemma process_job_stage:
  assumes "dict_get d ''title'' (JStr []) = JStr t" and "strict_tech_filter (py_lower t)"
    and "clean_html_text ev (dict_get d ''content'' (JStr [])) = Inr desc"
    and "dict_get d ''location'' (JObj []) = JObj loc"
  shows "\<exists>doc. process_job ev now c st (JObj d) =
             Inr \<lparr>batch = batch st @ [(''gh-'' @ py_str (container_repr ev) (dict_get d ''id'' JNull), doc)],
                  upload_count = upload_count st + 1\<rparr>
           \<and> externalId (sourceMeta doc) = ''gh-'' @ py_str (container_repr ev) (dict_get d ''id'' JNull)
           \<and> title doc = t
           \<and> jobType doc = (if py_in ''intern'' (py_lower t) then ''Internship'' else ''Full-time'')
           \<and> location doc = dict_get loc ''name'' (JStr ''Remote'')
           \<and> jdText doc = desc
           \<and> tags doc = extract_tags (set_order ev) t desc"
  using assms apply (simp only: process_job_def Let_def json.case sum.case if_not_P simp_thms if_False)
  apply (rule exI)
  apply (rule conjI, rule refl)
  apply simp
  done


lemma process_job_Inr:
  assumes "process_job ev now c st job = Inr st'"
  shows "\<exists>d t. job = JObj d \<and> dict_get d ''title'' (JStr []) = JStr t \<and>
           ((\<not> strict_tech_filter (py_lower t) \<and> st' = st) \<or>
            (strict_tech_filter (py_lower t) \<and>
             (\<exists>desc loc doc.
                clean_html_text ev (dict_get d ''content'' (JStr [])) = Inr desc
                \<and> dict_get d ''location'' (JObj []) = JObj loc
                \<and> st' = \<lparr>batch = batch st @ [(''gh-'' @ py_str (container_repr ev) (dict_get d ''id'' JNull), doc)],
                          upload_count = upload_count st + 1\<rparr>
                \<and> externalId (sourceMeta doc) = ''gh-'' @ py_str (container_repr ev) (dict_get d ''id'' JNull)
                \<and> title doc = t
                \<and> jobType doc = (if py_in ''intern'' (py_lower t) then ''Internship'' else ''Full-time'')
                \<and> location doc = dict_get loc ''name'' (JStr ''Remote'')
                \<and> jdText doc = desc
                \<and> tags doc = extract_tags (set_order ev) t desc)))"
proof -
  obtain d where d: "job = JObj d"
    using assms process_job_not_dict [of job ev now c st] by auto
  obtain t where t: "dict_get d ''title'' (JStr []) = JStr t"
    using assms d process_job_title_not_str [of d ev now c st] by auto
  show ?thesis
  proof (cases "strict_tech_filter (py_lower t)")
    case False
    then have "st' = st" using assms d process_job_skip [OF t False, of ev now c st] by simp
    with False d t show ?thesis by blast
  next
    case True
    obtain desc where desc: "clean_html_text ev (dict_get d ''content'' (JStr [])) = Inr desc"
      using assms d process_job_clean_raises [OF t True, of ev _ now c st]
      by (cases "clean_html_text ev (dict_get d ''content'' (JStr []))") auto
    obtain loc where loc: "dict_get d ''location'' (JObj []) = JObj loc"
      using assms d process_job_location_not_dict [OF t True desc, of now c st] by auto
    from process_job_stage [OF t True desc loc, of now c st] assms d
    show ?thesis using d t True desc loc by auto
  qed
qed

lemma staged_documentD:
  assumes "staged_document ev now c job = Some (k, doc)"
  shows "\<exists>d t desc loc.
           job = JObj d \<and> dict_get d ''title'' (JStr []) = JStr t
           \<and> strict_tech_filter (py_lower t)
           \<and> clean_html_text ev (dict_get d ''content'' (JStr [])) = Inr desc
           \<and> dict_get d ''location'' (JObj []) = JObj loc
           \<and> k = ''gh-'' @ py_str (container_repr ev) (dict_get d ''id'' JNull)
           \<and> externalId (sourceMeta doc) = k
           \<and> title doc = t
           \<and> jobType doc = (if py_in ''intern'' (py_lower t) then ''Internship'' else ''Full-time'')
           \<and> location doc = dict_get loc ''name'' (JStr ''Remote'')
           \<and> jdText doc = desc
           \<and> tags doc = extract_tags (set_order ev) t desc"
proof -
  from assms obtain st0 where p: "process_job ev now c \<lparr>batch = [], upload_count = 0\<rparr> job = Inr st0"
    and b: "hd (batch st0) = (k, doc)" "batch st0 \<noteq> []"
    by (auto simp: staged_document_def split: sum.splits list.splits)
  from process_job_Inr [OF p] b show ?thesis by auto
qed

subsection \<open>The example inputs, evaluated\<close>



lemma office_irrelevant: "\<not> strict_tech_filter (py_lower ''Office Manager'')"
  by code_simp

lemma process_intern:
  "process_job demo_env demo_now ''figma'' \<lparr>batch = [], upload_count = 0\<rparr> intern_job
     = Inr \<lparr>batch = [(''gh-7'', intern_doc)], upload_count = 1\<rparr>"
  by code_simp

lemma staged_intern:
  "staged_document demo_env demo_now ''figma'' intern_job = Some (''gh-7'', intern_doc)"
  by (simp add: staged_document_def process_intern)

lemma staged_intern_discord:
  "staged_document demo_env demo_now ''discord'' intern_job = Some (''gh-7'', intern_doc_discord)"
  by code_simp

subsection \<open>The description of a posting\<close>

text \<open>
  Claim C8. \<open>clean_html_text\<close> applied to \<open>None\<close> and applied to the empty string both
  return exactly the string "Not specified".
\<close>

theorem clean_html_text_empty:
  "clean_html_text ev JNull = Inr ''Not specified''
   \<and> clean_html_text ev (JStr []) = Inr ''Not specified''"
  by (simp add: clean_html_text_def)

theorem clean_html_text_empty_witness:
  "clean_html_text demo_env JNull = Inr ''Not specified''
   \<and> clean_html_text demo_env (JStr '''') = Inr ''Not specified''"
  using clean_html_text_empty [of demo_env] by simp

subsection \<open>The job type\<close>






subsection \<open>The location\<close>



subsection \<open>The relevance filter\<close>



subsection \<open>The document as a function of the posting, the company and the time\<close>

lemma clean_html_text_set_order [simp]:
  "clean_html_text (ev\<lparr>set_order := f\<rparr>) v = clean_html_text ev v"
  by (simp add: clean_html_text_def)

lemma process_job_outcome:
  "(\<exists>e. \<forall>f st. process_job (ev\<lparr>set_order := f\<rparr>) now c st job = Inl e)
   \<or> (\<forall>f st. process_job (ev\<lparr>set_order := f\<rparr>) now c st job = Inr st)
   \<or> (\<exists>k base t desc. \<forall>f st. process_job (ev\<lparr>set_order := f\<rparr>) now c st job =
         Inr \<lparr>batch = batch st @ [(k, base\<lparr>tags := extract_tags f t desc\<rparr>)],
              upload_count = upload_count st + 1\<rparr>)"
proof (cases "\<exists>d. job = JObj d")
  case False
  then have "\<forall>f st. process_job (ev\<lparr>set_order := f\<rparr>) now c st job = Inl AttributeError"
    using process_job_not_dict [of job] by blast
  then show ?thesis by blast
next
  case True
  then obtain d where d: "job = JObj d" by blast
  show ?thesis
  proof (cases "\<exists>t. dict_get d ''title'' (JStr []) = JStr t")
    case False
    then have "\<forall>f st. process_job (ev\<lparr>set_order := f\<rparr>) now c st job = Inl AttributeError"
      using process_job_title_not_str [of d] d by blast
    then show ?thesis by blast
  next
    case True
    then obtain t where t: "dict_get d ''title'' (JStr []) = JStr t" by blast
    show ?thesis
    proof (cases "strict_tech_filter (py_lower t)")
      case False
      then have "\<forall>f st. process_job (ev\<lparr>set_order := f\<rparr>) now c st job = Inr st"
        using process_job_skip [OF t] d by blast
      then show ?thesis by blast
    next
      case rel: True
      show ?thesis
      proof (cases "clean_html_text ev (dict_get d ''content'' (JStr []))")
        case (Inl e)
        then have "\<forall>f st. process_job (ev\<lparr>set_order := f\<rparr>) now c st job = Inl e"
          using d by (simp add: process_job_clean_raises [OF t rel])
        then show ?thesis by blast
      next
        case (Inr desc)
        show ?thesis
        proof (cases "\<exists>loc. dict_get d ''location'' (JObj []) = JObj loc")
          case False
          then have "\<forall>f st. process_job (ev\<lparr>set_order := f\<rparr>) now c st job = Inl AttributeError"
            using d Inr by (simp add: process_job_location_not_dict [OF t rel])
          then show ?thesis by blast
        next
          case True
          then obtain loc where loc: "dict_get d ''location'' (JObj []) = JObj loc" by blast
          let ?k = "''gh-'' @ py_str (container_repr ev) (dict_get d ''id'' JNull)"
          let ?base = "\<lparr>title = t, company = py_capitalize c,
             location = dict_get loc ''name'' (JStr ''Remote''),
             jobType = (if py_in ''intern'' (py_lower t) then ''Internship'' else ''Full-time''),
             applyUrl = dict_get d ''absolute_url'' JNull, jdText = desc, tags = [],
             source = ''scraped'',
             sourceMeta = \<lparr>sourceId = ''scrape_sources/greenhouse'', externalId = ?k\<rparr>,
             visibility = ''public'', instituteId = JNull, ownerUid = JNull, status = ''open'',
             postedAt = dict_get d ''updated_at'' (JStr now), lastSeenAt = now,
             createdAt = now, updatedAt = now,
             normalized = \<lparr>companyLower = py_lower c, titleLower = py_lower t\<rparr>\<rparr>"
          have "\<forall>f st. process_job (ev\<lparr>set_order := f\<rparr>) now c st job =
                  Inr \<lparr>batch = batch st @ [(?k, ?base\<lparr>tags := extract_tags f t desc\<rparr>)],
                       upload_count = upload_count st + 1\<rparr>"
            using d t rel Inr loc by (simp add: process_job_def Let_def)
          then show ?thesis by blast
        qed
      qed
    qed
  qed
qed

lemma set_order_same [simp]: "ev\<lparr>set_order := set_order ev\<rparr> = ev"
  by simp

lemma extract_tags_orders:
  assumes "valid_set_order g" and "valid_set_order g'"
  shows "set (extract_tags g t desc) = set (extract_tags g' t desc)"
    and "distinct (extract_tags g t desc)"
  using assms by (simp_all add: extract_tags_def Let_def valid_set_order_def)

lemma valid_reversed: "valid_set_order reversed_order"
  by (simp add: valid_set_order_def reversed_order_def)

lemma valid_demo: "valid_set_order (set_order demo_env)"
  by (simp add: demo_env_def valid_remdups)

lemma staged_two_tag:
  "staged_document demo_env demo_now ''figma'' two_tag_job = Some (''gh-7'', two_tag_doc)"
  by code_simp

lemma staged_two_tag_seed2:
  "staged_document seed2_env demo_now ''figma'' two_tag_job
     = Some (''gh-7'', two_tag_doc\<lparr>tags := [''Ai'', ''Data'']\<rparr>)"
  by code_simp

text \<open>
  Claim C7 says that normalising the same posting for the same company at the same time
  twice gives byte-identical documents. The tags are \<open>list(set(found_tags))\<close>, whose
  order follows the hash seed of the process and not the inputs: a posting with two
  tags gets them in one order in one process and in the other order in another.
\<close>

theorem tags_order_depends_on_seed:
  "valid_set_order (set_order demo_env) \<and> valid_set_order (set_order seed2_env)
   \<and> map_option (tags \<circ> snd) (staged_document demo_env demo_now ''figma'' two_tag_job)
       = Some [''Data'', ''Ai'']
   \<and> map_option (tags \<circ> snd) (staged_document seed2_env demo_now ''figma'' two_tag_job)
       = Some [''Ai'', ''Data'']
   \<and> staged_document demo_env demo_now ''figma'' two_tag_job
       \<noteq> staged_document seed2_env demo_now ''figma'' two_tag_job"
proof -
  have "valid_set_order (set_order seed2_env)"
    by (simp add: seed2_env_def valid_reversed)
  then show ?thesis
    using valid_demo by (simp add: staged_two_tag staged_two_tag_seed2 two_tag_doc_def)
qed

text \<open>
  Claim C7, amended. Within one process the result of the loop body for a posting, a
  company and a time does not depend on what was staged before: two runs raise the
  same exception, or both skip the posting, or both stage the same document under the
  same key. Between two processes that differ in the order of their sets only, a
  posting raises in one exactly when it raises in the other with the same exception,
  is staged in one exactly when it is staged in the other, and the two documents have
  the same key and agree in every field but the order of the tags: both lists hold the
  same tags, each once.
\<close>

theorem normalization_up_to_tag_order:
  assumes "valid_set_order (set_order ev)" and "valid_set_order f"
  shows
   "((\<exists>e. process_job ev now c st1 job = Inl e \<and> process_job ev now c st2 job = Inl e)
      \<or> (process_job ev now c st1 job = Inr st1 \<and> process_job ev now c st2 job = Inr st2)
      \<or> (\<exists>k doc.
            process_job ev now c st1 job =
              Inr \<lparr>batch = batch st1 @ [(k, doc)], upload_count = upload_count st1 + 1\<rparr>
            \<and> process_job ev now c st2 job =
              Inr \<lparr>batch = batch st2 @ [(k, doc)], upload_count = upload_count st2 + 1\<rparr>))
    \<and> (\<forall>e. process_job (ev\<lparr>set_order := f\<rparr>) now c st1 job = Inl e
             \<longleftrightarrow> process_job ev now c st1 job = Inl e)
    \<and> (staged_document (ev\<lparr>set_order := f\<rparr>) now c job = None
             \<longleftrightarrow> staged_document ev now c job = None)
    \<and> (\<forall>k d k' d'.
          staged_document ev now c job = Some (k, d)
          \<and> staged_document (ev\<lparr>set_order := f\<rparr>) now c job = Some (k', d')
          \<longrightarrow> k' = k \<and> d'\<lparr>tags := tags d\<rparr> = d \<and> set (tags d') = set (tags d)
              \<and> distinct (tags d) \<and> distinct (tags d'))"
proof -
  from process_job_outcome [of ev now c job]
  consider (raise) e where
      "\<forall>g st. process_job (ev\<lparr>set_order := g\<rparr>) now c st job = Inl e"
    | (skip) "\<forall>g st. process_job (ev\<lparr>set_order := g\<rparr>) now c st job = Inr st"
    | (stage) k base t desc where
      "\<forall>g st. process_job (ev\<lparr>set_order := g\<rparr>) now c st job =
         Inr \<lparr>batch = batch st @ [(k, base\<lparr>tags := extract_tags g t desc\<rparr>)],
              upload_count = upload_count st + 1\<rparr>"
    by blast
  then show ?thesis
  proof cases
    case raise
    then have a: "process_job (ev\<lparr>set_order := g\<rparr>) now c st job = Inl e" for g st by blast
    have b: "process_job ev now c st job = Inl e" for st
      using a [of "set_order ev" st] by simp
    show ?thesis
      by (simp add: a b staged_document_def)
  next
    case skip
    then have a: "process_job (ev\<lparr>set_order := g\<rparr>) now c st job = Inr st" for g st by blast
    have b: "process_job ev now c st job = Inr st" for st
      using a [of "set_order ev" st] by simp
    show ?thesis
      by (simp add: a b staged_document_def)
  next
    case stage
    then have a: "process_job (ev\<lparr>set_order := g\<rparr>) now c st job =
         Inr \<lparr>batch = batch st @ [(k, base\<lparr>tags := extract_tags g t desc\<rparr>)],
              upload_count = upload_count st + 1\<rparr>" for g st by blast
    have b: "process_job ev now c st job =
         Inr \<lparr>batch = batch st @ [(k, base\<lparr>tags := extract_tags (set_order ev) t desc\<rparr>)],
              upload_count = upload_count st + 1\<rparr>" for st
      using a [of "set_order ev" st] by simp
    have s1: "staged_document ev now c job
                = Some (k, base\<lparr>tags := extract_tags (set_order ev) t desc\<rparr>)"
      by (simp add: staged_document_def b)
    have s2: "staged_document (ev\<lparr>set_order := f\<rparr>) now c job
                = Some (k, base\<lparr>tags := extract_tags f t desc\<rparr>)"
      by (simp add: staged_document_def a)
    have first: "\<exists>k doc.
            process_job ev now c st1 job =
              Inr \<lparr>batch = batch st1 @ [(k, doc)], upload_count = upload_count st1 + 1\<rparr>
            \<and> process_job ev now c st2 job =
              Inr \<lparr>batch = batch st2 @ [(k, doc)], upload_count = upload_count st2 + 1\<rparr>"
      using b [of st1] b [of st2] by blast
    have second: "\<forall>e. process_job (ev\<lparr>set_order := f\<rparr>) now c st1 job = Inl e
             \<longleftrightarrow> process_job ev now c st1 job = Inl e"
      by (simp add: a b)
    have third: "staged_document (ev\<lparr>set_order := f\<rparr>) now c job = None
             \<longleftrightarrow> staged_document ev now c job = None"
      by (simp add: s1 s2)
    have fourth: "\<forall>k0 d k' d'.
          staged_document ev now c job = Some (k0, d)
          \<and> staged_document (ev\<lparr>set_order := f\<rparr>) now c job = Some (k', d')
          \<longrightarrow> k' = k0 \<and> d'\<lparr>tags := tags d\<rparr> = d \<and> set (tags d') = set (tags d)
              \<and> distinct (tags d) \<and> distinct (tags d')"
      using extract_tags_orders [OF assms(2,1), of t desc]
        extract_tags_orders [OF assms(1,2), of t desc]
      by (auto simp: s1 s2)
    from first second third fourth show ?thesis by blast
  qed
qed

theorem normalization_up_to_tag_order_witness:
  "valid_set_order (set_order demo_env) \<and> valid_set_order reversed_order
   \<and> staged_document demo_env demo_now ''figma'' two_tag_job = Some (''gh-7'', two_tag_doc)
   \<and> staged_document (demo_env\<lparr>set_order := reversed_order\<rparr>) demo_now ''figma'' two_tag_job
       = Some (''gh-7'', two_tag_doc\<lparr>tags := [''Ai'', ''Data'']\<rparr>)
   \<and> (two_tag_doc\<lparr>tags := [''Ai'', ''Data'']\<rparr>)\<lparr>tags := tags two_tag_doc\<rparr> = two_tag_doc
   \<and> set (tags (two_tag_doc\<lparr>tags := [''Ai'', ''Data'']\<rparr>)) = set (tags two_tag_doc)
   \<and> distinct (tags two_tag_doc)"
proof -
  have b: "staged_document (demo_env\<lparr>set_order := reversed_order\<rparr>) demo_now ''figma'' two_tag_job
       = Some (''gh-7'', two_tag_doc\<lparr>tags := [''Ai'', ''Data'']\<rparr>)"
    using staged_two_tag_seed2 by (simp add: seed2_env_def)
  from normalization_up_to_tag_order [OF valid_demo valid_reversed,
      of demo_now "''figma''" "\<lparr>batch = [], upload_count = 0\<rparr>" two_tag_job
         "\<lparr>batch = [], upload_count = 0\<rparr>"]
    staged_two_tag b
  have "(two_tag_doc\<lparr>tags := [''Ai'', ''Data'']\<rparr>)\<lparr>tags := tags two_tag_doc\<rparr> = two_tag_doc
   \<and> set (tags (two_tag_doc\<lparr>tags := [''Ai'', ''Data'']\<rparr>)) = set (tags two_tag_doc)
   \<and> distinct (tags two_tag_doc)"
    by blast
  with valid_demo valid_reversed staged_two_tag b show ?thesis by blast
qed

subsection \<open>The external id\<close>

lemma digit_char_inj: "a < 10 \<Longrightarrow> b < 10 \<Longrightarrow> digit_char a = digit_char b \<Longrightarrow> a = b"
  by (simp add: digit_char_def)

lemma of_char_digit_char: "a < 10 \<Longrightarrow> (of_char (digit_char a) :: nat) = 48 + a"
  by (simp add: digit_char_def)

lemma str_nat_not_Nil [simp]: "str_nat n \<noteq> []"
  by (subst str_nat.simps) simp

lemma str_nat_digits: "c \<in> set (str_nat n) \<Longrightarrow> is_digit c"
proof (induction n rule: str_nat.induct)
  case (1 n)
  show ?case
  proof (cases "n < 10")
    case True
    with "1.prems" have "c = digit_char n" by (subst (asm) str_nat.simps) simp
    with True show ?thesis by (simp add: is_digit_def of_char_digit_char)
  next
    case False
    with "1.prems" have "c \<in> set (str_nat (n div 10)) \<or> c = digit_char (n mod 10)"
      by (subst (asm) str_nat.simps) auto
    then show ?thesis
    proof
      assume "c \<in> set (str_nat (n div 10))"
      with "1.IH" False show ?thesis by simp
    next
      assume "c = digit_char (n mod 10)"
      then show ?thesis by (simp add: is_digit_def of_char_digit_char)
    qed
  qed
qed

lemma str_nat_inj: "str_nat m = str_nat n \<Longrightarrow> m = n"
proof (induction m arbitrary: n rule: str_nat.induct)
  case (1 m)
  show ?case
  proof (cases "m < 10")
    case True
    then have m: "str_nat m = [digit_char m]" by (subst str_nat.simps) simp
    show ?thesis
    proof (cases "n < 10")
      case n: True
      then have "str_nat n = [digit_char n]" by (subst str_nat.simps) simp
      with m "1.prems" True n show ?thesis by (simp add: digit_char_inj)
    next
      case False
      then have "str_nat n = str_nat (n div 10) @ [digit_char (n mod 10)]"
        by (subst str_nat.simps) simp
      with m "1.prems" show ?thesis by simp
    qed
  next
    case False
    then have m: "str_nat m = str_nat (m div 10) @ [digit_char (m mod 10)]"
      by (subst str_nat.simps) simp
    show ?thesis
    proof (cases "n < 10")
      case True
      then have "str_nat n = [digit_char n]" by (subst str_nat.simps) simp
      with m "1.prems" have "str_nat (m div 10) = []" by simp
      then show ?thesis by simp
    next
      case n: False
      then have "str_nat n = str_nat (n div 10) @ [digit_char (n mod 10)]"
        by (subst str_nat.simps) simp
      with m "1.prems" have e: "str_nat (m div 10) = str_nat (n div 10)"
        and d: "digit_char (m mod 10) = digit_char (n mod 10)" by simp_all
      from "1.IH" [OF False e] have "m div 10 = n div 10" .
      moreover from d have "m mod 10 = n mod 10" by (intro digit_char_inj) simp_all
      ultimately show ?thesis by (metis div_mult_mod_eq)
    qed
  qed
qed

lemma minus_not_digit: "\<not> is_digit (CHR ''-'')"
  by (simp add: is_digit_def)

lemma str_int_inj: "str_int i = str_int j \<Longrightarrow> i = j"
proof -
  assume e: "str_int i = str_int j"
  have no_minus: "str_nat n \<noteq> CHR ''-'' # r" for n r
  proof
    assume "str_nat n = CHR ''-'' # r"
    then have "CHR ''-'' \<in> set (str_nat n)" by simp
    then show False using str_nat_digits minus_not_digit by blast
  qed
  consider "i < 0" "j < 0" | "i < 0" "\<not> j < 0" | "\<not> i < 0" "j < 0" | "\<not> i < 0" "\<not> j < 0"
    by blast
  then show ?thesis
  proof cases
    case 1
    with e have "str_nat (nat (- i)) = str_nat (nat (- j))" by (simp add: str_int_def)
    then have "nat (- i) = nat (- j)" by (rule str_nat_inj)
    with 1 show ?thesis by simp
  next
    case 2
    with e have "str_nat (nat j) = CHR ''-'' # str_nat (nat (- i))" by (simp add: str_int_def)
    with no_minus show ?thesis by blast
  next
    case 3
    with e have "str_nat (nat i) = CHR ''-'' # str_nat (nat (- j))" by (simp add: str_int_def)
    with no_minus show ?thesis by blast
  next
    case 4
    with e have "str_nat (nat i) = str_nat (nat j)" by (simp add: str_int_def)
    then have "nat i = nat j" by (rule str_nat_inj)
    with 4 show ?thesis by simp
  qed
qed

text \<open>
  Claim C1 says that two postings with the same upstream id from different configured
  sources get different external ids. The code prefixes every id with \<open>gh-\<close>, whatever
  the company: the same posting id from two boards gives the same external id.
\<close>

theorem external_id_same_across_sources:
  "map_option (externalId \<circ> sourceMeta \<circ> snd)
     (staged_document demo_env demo_now ''figma'' intern_job) = Some ''gh-7''
   \<and> map_option (externalId \<circ> sourceMeta \<circ> snd)
     (staged_document demo_env demo_now ''discord'' intern_job) = Some ''gh-7''
   \<and> ''figma'' \<noteq> ''discord''"
  by (simp add: staged_intern staged_intern_discord intern_doc_def intern_doc_discord_def)

text \<open>
  Claim C1, amended. The external id of a document is \<open>gh-\<close> followed by \<open>str\<close> of the
  upstream id, and it is the key the document is stored under. Two postings with the
  same upstream id get the same external id, whatever their companies; two postings
  whose upstream ids are different integers get different external ids.
\<close>

theorem external_id_from_upstream_id:
  assumes "staged_document ev now1 c1 (JObj d1) = Some (k1, doc1)"
    and "staged_document ev now2 c2 (JObj d2) = Some (k2, doc2)"
  shows "k1 = externalId (sourceMeta doc1)
         \<and> externalId (sourceMeta doc1) = ''gh-'' @ py_str (container_repr ev) (dict_get d1 ''id'' JNull)
         \<and> (dict_get d1 ''id'' JNull = dict_get d2 ''id'' JNull
              \<longrightarrow> externalId (sourceMeta doc1) = externalId (sourceMeta doc2))
         \<and> (\<forall>i j. dict_get d1 ''id'' JNull = JInt i \<and> dict_get d2 ''id'' JNull = JInt j \<and> i \<noteq> j
              \<longrightarrow> externalId (sourceMeta doc1) \<noteq> externalId (sourceMeta doc2))"
proof -
  from staged_documentD [OF assms(1)]
  have 1: "k1 = externalId (sourceMeta doc1)"
    "externalId (sourceMeta doc1) = ''gh-'' @ py_str (container_repr ev) (dict_get d1 ''id'' JNull)"
    by auto
  from staged_documentD [OF assms(2)]
  have 2: "externalId (sourceMeta doc2) = ''gh-'' @ py_str (container_repr ev) (dict_get d2 ''id'' JNull)"
    by auto
  have "externalId (sourceMeta doc1) \<noteq> externalId (sourceMeta doc2)"
    if "dict_get d1 ''id'' JNull = JInt i" "dict_get d2 ''id'' JNull = JInt j" "i \<noteq> j" for i j
    using that 1 2 str_int_inj by auto
  with 1 2 show ?thesis by auto
qed

theorem external_id_from_upstream_id_witness:
  "staged_document demo_env demo_now ''figma''
     (JObj [(''id'', JInt 7), (''title'', JStr ''AI Intern'')]) = Some (''gh-7'', intern_doc)
   \<and> staged_document demo_env demo_now ''discord''
     (JObj [(''id'', JInt 7), (''title'', JStr ''AI Intern'')]) = Some (''gh-7'', intern_doc_discord)
   \<and> externalId (sourceMeta intern_doc) = ''gh-7''
   \<and> externalId (sourceMeta intern_doc) = externalId (sourceMeta intern_doc_discord)"
proof -
  have a: "staged_document demo_env demo_now ''figma''
     (JObj [(''id'', JInt 7), (''title'', JStr ''AI Intern'')]) = Some (''gh-7'', intern_doc)"
    using staged_intern by (simp add: intern_job_def)
  have b: "staged_document demo_env demo_now ''discord''
     (JObj [(''id'', JInt 7), (''title'', JStr ''AI Intern'')]) = Some (''gh-7'', intern_doc_discord)"
    using staged_intern_discord by (simp add: intern_job_def)
  from external_id_from_upstream_id [OF a b]
  have "''gh-7'' = externalId (sourceMeta intern_doc)"
    and "externalId (sourceMeta intern_doc) = externalId (sourceMeta intern_doc_discord)"
    by blast+
  with a b show ?thesis by (simp only: simp_thms)
qed

subsection \<open>The loops over the postings and the companies\<close>

lemma process_job_count:
  assumes "process_job ev now c st job = Inr st'" and "upload_count st = length (batch st)"
  shows "upload_count st' = length (batch st')"
  using process_job_Inr [OF assms(1)] assms(2) by auto

lemma sync_jobs_count:
  "sync_jobs ev now c st jobs = Inr st' \<Longrightarrow> upload_count st = length (batch st)
     \<Longrightarrow> upload_count st' = length (batch st')"
proof (induction jobs arbitrary: st)
  case Nil
  then show ?case by simp
next
  case (Cons j jobs)
  then show ?case
    by (auto split: sum.splits dest: process_job_count)
qed

lemma sync_company_count:
  "sync_company ev now st c = Inr st' \<Longrightarrow> upload_count st = length (batch st)
     \<Longrightarrow> upload_count st' = length (batch st')"
  by (auto simp: sync_company_def split: sum.splits if_splits json.splits dest: sync_jobs_count)

lemma sync_companies_count:
  "sync_companies ev now st cs = Inr st' \<Longrightarrow> upload_count st = length (batch st)
     \<Longrightarrow> upload_count st' = length (batch st')"
proof (induction cs arbitrary: st)
  case Nil
  then show ?case by simp
next
  case (Cons c cs)
  then show ?case
    by (auto split: sum.splits dest: sync_company_count)
qed

lemma sync_companies_append:
  "sync_companies ev now st (a @ b) =
     (case sync_companies ev now st a of
        Inl e \<Rightarrow> Inl e
      | Inr st' \<Rightarrow> sync_companies ev now st' b)"
  by (induction a arbitrary: st) (auto split: sum.splits)

lemma sync_company_unavailable:
  "requests_get ev (jobs_url c) = Inr resp \<Longrightarrow> status_code resp \<noteq> 200
     \<Longrightarrow> sync_company ev now st c = Inr st"
  by (simp add: sync_company_def)

lemma sync_company_transport:
  "requests_get ev (jobs_url c) = Inl e \<Longrightarrow> sync_company ev now st c = Inl e"
  by (simp add: sync_company_def)

lemma sync_companies_raises:
  assumes "c \<in> set cs" and "\<And>st. \<exists>e. sync_company ev now st c = Inl e"
  shows "\<exists>e. sync_companies ev now st cs = Inl e"
  using assms(1)
proof (induction cs arbitrary: st)
  case Nil
  then show ?case by simp
next
  case (Cons a cs)
  show ?case
  proof (cases "sync_company ev now st a")
    case (Inl e)
    then show ?thesis by simp
  next
    case (Inr st')
    have "a \<noteq> c" using Inr assms(2) [of st] by auto
    with Cons.prems have "c \<in> set cs" by simp
    from Cons.IH [OF this, of st'] Inr show ?thesis by simp
  qed
qed

lemma process_job_raises_any_state:
  "process_job ev now c st0 j = Inl e \<Longrightarrow> process_job ev now c st j = Inl e"
  using process_job_state [of ev now c st0 j] process_job_state [of ev now c st j]
  by (auto split: sum.splits)

lemma sync_jobs_raises:
  assumes "j \<in> set jobs" and "process_job ev now c st0 j = Inl e"
  shows "\<exists>e'. sync_jobs ev now c st jobs = Inl e'"
  using assms(1)
proof (induction jobs arbitrary: st)
  case Nil
  then show ?case by simp
next
  case (Cons a jobs)
  show ?case
  proof (cases "process_job ev now c st a")
    case (Inl e')
    then show ?thesis by simp
  next
    case (Inr st')
    have "a \<noteq> j" using Inr process_job_raises_any_state [OF assms(2), of st] by auto
    with Cons.prems have "j \<in> set jobs" by simp
    from Cons.IH [OF this, of st'] Inr show ?thesis by simp
  qed
qed

lemma sync_cycle_failed:
  "sync_companies ev now \<lparr>batch = [], upload_count = 0\<rparr> cs = Inl e
     \<Longrightarrow> sync_cycle ev now cs db = \<lparr>result = Inl (HTTPException 500 e), store = db, commits = []\<rparr>"
  by (simp add: sync_cycle_def)

lemma url_discord: "jobs_url ''discord'' \<noteq> jobs_url ''figma''"
  and url_dropbox: "jobs_url ''dropbox'' \<noteq> jobs_url ''figma''"
  and url_duolingo: "jobs_url ''duolingo'' \<noteq> jobs_url ''figma''"
  by (simp_all add: jobs_url_def)

lemma process_office:
  "process_job ev now c st office_job = Inr st"
proof -
  have "dict_get [(''id'', JInt 8), (''title'', JStr ''Office Manager''), (''content'', JInt 5)]
          ''title'' (JStr []) = JStr ''Office Manager''"
    by (simp add: dict_get_def)
  from process_job_skip [OF this office_irrelevant] show ?thesis by (simp add: office_job_def)
qed

subsection \<open>The batch commit\<close>

lemma sync_company_fetched:
  "sync_company ev now st c =
     (case fetched_jobs ev c of Inl e \<Rightarrow> Inl e | Inr jobs \<Rightarrow> sync_jobs ev now c st jobs)"
  by (simp add: sync_company_def fetched_jobs_def split: sum.splits json.splits)

lemma process_job_step:
  assumes "\<not> isl (process_job ev now c \<lparr>batch = [], upload_count = 0\<rparr> j)"
  shows "process_job ev now c st j =
           Inr \<lparr>batch = batch st @ List.map_filter (staged_document ev now c) [j],
                upload_count = upload_count st + length (List.map_filter (staged_document ev now c) [j])\<rparr>"
proof -
  from assms obtain s0 where s0: "process_job ev now c \<lparr>batch = [], upload_count = 0\<rparr> j = Inr s0"
    by (cases "process_job ev now c \<lparr>batch = [], upload_count = 0\<rparr> j") auto
  from process_job_Inr [OF s0]
  have "s0 = \<lparr>batch = [], upload_count = 0\<rparr> \<or>
        (\<exists>k doc. s0 = \<lparr>batch = [(k, doc)], upload_count = 1\<rparr>)"
    by auto
  then have "batch s0 = List.map_filter (staged_document ev now c) [j]
             \<and> upload_count s0 = length (List.map_filter (staged_document ev now c) [j])"
    using s0 by (auto simp: staged_document_def)
  then show ?thesis
    using process_job_state [of ev now c st j] s0 by simp
qed

lemma sync_jobs_complete:
  "list_all (\<lambda>j. \<not> isl (process_job ev now c \<lparr>batch = [], upload_count = 0\<rparr> j)) jobs
     \<Longrightarrow> sync_jobs ev now c st jobs =
           Inr \<lparr>batch = batch st @ List.map_filter (staged_document ev now c) jobs,
                upload_count = upload_count st + length (List.map_filter (staged_document ev now c) jobs)\<rparr>"
proof (induction jobs arbitrary: st)
  case Nil
  then show ?case by simp
next
  case (Cons j jobs)
  from Cons.prems have j: "\<not> isl (process_job ev now c \<lparr>batch = [], upload_count = 0\<rparr> j)"
    and rest: "list_all (\<lambda>j. \<not> isl (process_job ev now c \<lparr>batch = [], upload_count = 0\<rparr> j)) jobs"
    by simp_all
  show ?case
    using process_job_step [OF j, of st] Cons.IH [OF rest]
    by (simp split: option.splits)
qed

lemma sync_company_complete:
  assumes "source_completes ev now c"
  shows "sync_company ev now st c =
           Inr \<lparr>batch = batch st @ staged_by_company ev now c,
                upload_count = upload_count st + length (staged_by_company ev now c)\<rparr>"
proof -
  from assms obtain jobs where f: "fetched_jobs ev c = Inr jobs"
    and a: "list_all (\<lambda>j. \<not> isl (process_job ev now c \<lparr>batch = [], upload_count = 0\<rparr> j)) jobs"
    by (auto simp: source_completes_def split: sum.splits)
  show ?thesis
    using sync_jobs_complete [OF a, of st] f
    by (simp add: sync_company_fetched staged_by_company_def)
qed

lemma sync_company_incomplete:
  assumes "\<not> source_completes ev now c"
  shows "\<exists>e. sync_company ev now st c = Inl e"
proof (cases "fetched_jobs ev c")
  case (Inl e)
  then show ?thesis by (simp add: sync_company_fetched)
next
  case (Inr jobs)
  with assms obtain j where j: "j \<in> set jobs"
    and r: "isl (process_job ev now c \<lparr>batch = [], upload_count = 0\<rparr> j)"
    by (auto simp: source_completes_def list_all_iff)
  from r obtain e where "process_job ev now c \<lparr>batch = [], upload_count = 0\<rparr> j = Inl e"
    by (cases "process_job ev now c \<lparr>batch = [], upload_count = 0\<rparr> j") auto
  from sync_jobs_raises [OF j this, of st] Inr show ?thesis
    by (simp add: sync_company_fetched)
qed

lemma sync_companies_complete:
  "\<forall>c\<in>set cs. source_completes ev now c
     \<Longrightarrow> sync_companies ev now st cs =
           Inr \<lparr>batch = batch st @ staged_batch ev now cs,
                upload_count = upload_count st + length (staged_batch ev now cs)\<rparr>"
proof (induction cs arbitrary: st)
  case Nil
  then show ?case by (simp add: staged_batch_def)
next
  case (Cons c cs)
  from Cons.prems have c: "source_completes ev now c"
    and rest: "\<forall>c\<in>set cs. source_completes ev now c" by simp_all
  show ?case
    using sync_company_complete [OF c, of st] Cons.IH [OF rest]
    by (simp add: staged_batch_def)
qed

lemma sync_companies_incomplete:
  assumes "\<not> (\<forall>c\<in>set cs. source_completes ev now c)"
  shows "\<exists>e. sync_companies ev now st cs = Inl e"
proof -
  from assms obtain c where c: "c \<in> set cs" and n: "\<not> source_completes ev now c" by blast
  have "\<exists>e. sync_company ev now st' c = Inl e" for st'
    using sync_company_incomplete [OF n] .
  from sync_companies_raises [OF c this] show ?thesis .
qed

lemma fetched_figma: "fetched_jobs demo_env ''figma'' = Inr [intern_job, office_job]"
  by (simp add: fetched_jobs_def demo_env_def demo_get_def ok_response_def dict_get_def)

lemma fetched_others:
  "fetched_jobs demo_env ''discord'' = Inr []"
  "fetched_jobs demo_env ''dropbox'' = Inr []"
  "fetched_jobs demo_env ''duolingo'' = Inr []"
  by (simp_all add: fetched_jobs_def demo_env_def demo_get_def unavailable_response_def
      url_discord url_dropbox url_duolingo)

lemma staged_office: "staged_document ev now c office_job = None"
  by (simp add: staged_document_def process_office)

lemma demo_completes: "\<forall>c\<in>set TARGET_COMPANIES. source_completes demo_env demo_now c"
  by (simp add: TARGET_COMPANIES_def source_completes_def fetched_figma fetched_others
      process_office process_intern)

lemma demo_staged: "staged_batch demo_env demo_now TARGET_COMPANIES = [(''gh-7'', intern_doc)]"
  by (simp add: TARGET_COMPANIES_def staged_batch_def staged_by_company_def fetched_figma
      fetched_others staged_office staged_intern)

lemma discord_completes: "\<forall>c\<in>set [''discord'']. source_completes demo_env demo_now c"
  by (simp add: source_completes_def fetched_others)

lemma discord_staged: "staged_batch demo_env demo_now [''discord''] = []"
  by (simp add: staged_batch_def staged_by_company_def fetched_others)

lemma fetched_quiet:
  "fetched_jobs quiet_env ''figma'' = Inl (Raised ''ConnectionError'')"
  "fetched_jobs quiet_env ''discord'' = Inr [office_job]"
  "fetched_jobs quiet_env ''dropbox'' = Inr [office_job]"
  "fetched_jobs quiet_env ''duolingo'' = Inr [office_job]"
  by (simp_all add: fetched_jobs_def quiet_env_def quiet_get_def ok_response_def dict_get_def
      url_discord url_dropbox url_duolingo)

text \<open>
  Claim C6 says that every cycle in which no document is staged ends as a success with
  count 0, and that every cycle in which a document is staged issues one commit. A
  cycle is a success only when no source raises: with the first board unreachable and
  no relevant posting on the others, nothing is staged and the cycle fails with
  status 500.
\<close>

theorem quiet_cycle_fails:
  "staged_batch quiet_env demo_now TARGET_COMPANIES = []
   \<and> result (sync_scraped_jobs_to_firebase quiet_env demo_now empty_store)
       = Inl (HTTPException 500 (Raised ''ConnectionError''))
   \<and> commits (sync_scraped_jobs_to_firebase quiet_env demo_now empty_store) = []"
  by (simp add: TARGET_COMPANIES_def staged_batch_def staged_by_company_def fetched_quiet
      staged_office sync_scraped_jobs_to_firebase_def sync_cycle_def sync_company_fetched)

text \<open>
  Claim C6, amended. When every source completes (its postings are fetched and the loop
  body raises on none of them): with no relevant posting no commit is issued, the store
  is as before and the answer is a success with \<open>synced_count\<close> 0; with at least one,
  \<open>commit\<close> is called exactly once, on the batch of all staged documents, and when
  Firestore accepts it the answer is a success whose \<open>synced_count\<close> is the number of
  staged documents and the store holds them, while a refused commit fails the cycle
  with the store as before. When some source does not complete, the cycle fails with
  status 500, no commit is issued and the store is as before, whatever was staged.
\<close>

theorem batch_commit_policy:
  "((\<forall>c\<in>set cs. source_completes ev now c) \<longrightarrow>
      (staged_batch ev now cs = [] \<longrightarrow>
          sync_cycle ev now cs db = \<lparr>result = Inr (success_response 0), store = db, commits = []\<rparr>
          \<and> synced_count (success_response 0) = 0)
      \<and> (staged_batch ev now cs \<noteq> [] \<longrightarrow>
          commits (sync_cycle ev now cs db) = [staged_batch ev now cs]
          \<and> (batch_commit ev (staged_batch ev now cs) = None \<longrightarrow>
                result (sync_cycle ev now cs db)
                  = Inr (success_response (length (staged_batch ev now cs)))
                \<and> synced_count (success_response (length (staged_batch ev now cs)))
                  = length (staged_batch ev now cs)
                \<and> store (sync_cycle ev now cs db) = apply_batch (staged_batch ev now cs) db)
          \<and> (\<forall>e. batch_commit ev (staged_batch ev now cs) = Some e \<longrightarrow>
                result (sync_cycle ev now cs db) = Inl (HTTPException 500 e)
                \<and> store (sync_cycle ev now cs db) = db)))
   \<and> (\<not> (\<forall>c\<in>set cs. source_completes ev now c) \<longrightarrow>
        (\<exists>e. sync_cycle ev now cs db
           = \<lparr>result = Inl (HTTPException 500 e), store = db, commits = []\<rparr>))"
proof -
  have fail: "\<exists>e. sync_cycle ev now cs db
           = \<lparr>result = Inl (HTTPException 500 e), store = db, commits = []\<rparr>"
    if "\<not> (\<forall>c\<in>set cs. source_completes ev now c)"
  proof -
    from sync_companies_incomplete [OF that]
    obtain e where "sync_companies ev now \<lparr>batch = [], upload_count = 0\<rparr> cs = Inl e" by blast
    from sync_cycle_failed [OF this] show ?thesis by blast
  qed
  have finished: "(staged_batch ev now cs = [] \<longrightarrow>
          sync_cycle ev now cs db = \<lparr>result = Inr (success_response 0), store = db, commits = []\<rparr>
          \<and> synced_count (success_response 0) = 0)
      \<and> (staged_batch ev now cs \<noteq> [] \<longrightarrow>
          commits (sync_cycle ev now cs db) = [staged_batch ev now cs]
          \<and> (batch_commit ev (staged_batch ev now cs) = None \<longrightarrow>
                result (sync_cycle ev now cs db)
                  = Inr (success_response (length (staged_batch ev now cs)))
                \<and> synced_count (success_response (length (staged_batch ev now cs)))
                  = length (staged_batch ev now cs)
                \<and> store (sync_cycle ev now cs db) = apply_batch (staged_batch ev now cs) db)
          \<and> (\<forall>e. batch_commit ev (staged_batch ev now cs) = Some e \<longrightarrow>
                result (sync_cycle ev now cs db) = Inl (HTTPException 500 e)
                \<and> store (sync_cycle ev now cs db) = db))"
    if "\<forall>c\<in>set cs. source_completes ev now c"
  proof -
    have s: "sync_companies ev now \<lparr>batch = [], upload_count = 0\<rparr> cs =
           Inr \<lparr>batch = staged_batch ev now cs, upload_count = length (staged_batch ev now cs)\<rparr>"
      using sync_companies_complete [OF that, of "\<lparr>batch = [], upload_count = 0\<rparr>"] by simp
    show ?thesis
      by (auto simp: sync_cycle_def s success_response_def split: option.splits)
  qed
  from fail finished show ?thesis by blast
qed

theorem batch_commit_policy_witness:
  "list_all (source_completes demo_env demo_now) TARGET_COMPANIES
   \<and> staged_batch demo_env demo_now TARGET_COMPANIES = [(''gh-7'', intern_doc)]
   \<and> batch_commit demo_env [(''gh-7'', intern_doc)] = None
   \<and> commits (sync_scraped_jobs_to_firebase demo_env demo_now empty_store) = [[(''gh-7'', intern_doc)]]
   \<and> result (sync_scraped_jobs_to_firebase demo_env demo_now empty_store) = Inr (success_response 1)
   \<and> list_all (source_completes demo_env demo_now) [''discord'']
   \<and> staged_batch demo_env demo_now [''discord''] = []
   \<and> sync_cycle demo_env demo_now [''discord''] empty_store
       = \<lparr>result = Inr (success_response 0), store = empty_store, commits = []\<rparr>
   \<and> \<not> list_all (source_completes quiet_env demo_now) TARGET_COMPANIES
   \<and> (\<exists>e. sync_cycle quiet_env demo_now TARGET_COMPANIES empty_store
           = \<lparr>result = Inl (HTTPException 500 e), store = empty_store, commits = []\<rparr>)"
proof -
  have c: "batch_commit demo_env [(''gh-7'', intern_doc)] = None" by (simp add: demo_env_def)
  have q: "\<not> (\<forall>c\<in>set TARGET_COMPANIES. source_completes quiet_env demo_now c)"
    by (simp add: TARGET_COMPANIES_def source_completes_def fetched_quiet)
  from batch_commit_policy [of TARGET_COMPANIES demo_env demo_now empty_store]
    demo_completes demo_staged c
  have 1: "commits (sync_cycle demo_env demo_now TARGET_COMPANIES empty_store)
             = [[(''gh-7'', intern_doc)]]"
    and 2: "result (sync_cycle demo_env demo_now TARGET_COMPANIES empty_store)
             = Inr (success_response 1)"
    by simp_all
  from batch_commit_policy [of "[''discord'']" demo_env demo_now empty_store]
    discord_completes discord_staged
  have 3: "sync_cycle demo_env demo_now [''discord''] empty_store
       = \<lparr>result = Inr (success_response 0), store = empty_store, commits = []\<rparr>"
    by simp
  from batch_commit_policy [of TARGET_COMPANIES quiet_env demo_now empty_store] q
  have 4: "\<exists>e. sync_cycle quiet_env demo_now TARGET_COMPANIES empty_store
           = \<lparr>result = Inl (HTTPException 500 e), store = empty_store, commits = []\<rparr>"
    by blast
  have 5: "list_all (source_completes demo_env demo_now) TARGET_COMPANIES"
    unfolding list_all_iff by (rule demo_completes)
  have 6: "list_all (source_completes demo_env demo_now) [''discord'']"
    unfolding list_all_iff by (rule discord_completes)
  have 7: "\<not> list_all (source_completes quiet_env demo_now) TARGET_COMPANIES"
    unfolding list_all_iff by (rule q)
  from 1 2 3 4 5 6 7 c demo_staged discord_staged
  show ?thesis by (simp only: sync_scraped_jobs_to_firebase_def simp_thms)
qed

lemma process_broken:
  "process_job broken_env demo_now ''figma'' \<lparr>batch = [], upload_count = 0\<rparr> broken_job
     = Inl AttributeError"
  by code_simp

subsection \<open>A failure while a document is built\<close>

text \<open>
  Claim C3. When the loop body raises on some posting of some company that answered
  with status 200, the cycle fails with status 500, \<open>commit\<close> is never called and the
  store is as it was before the cycle.
\<close>

theorem normalization_failure_aborts:
  assumes "c \<in> set cs"
    and "requests_get ev (jobs_url c) = Inr resp" and "status_code resp = 200"
    and "json_body resp = Inr (JObj body)"
    and "py_iter (dict_get body ''jobs'' (JArr [])) = Inr jobs"
    and "j \<in> set jobs"
    and "process_job ev now c st0 j = Inl e"
  shows "\<exists>e'. sync_cycle ev now cs db
           = \<lparr>result = Inl (HTTPException 500 e'), store = db, commits = []\<rparr>"
proof -
  have "\<exists>e'. sync_company ev now st c = Inl e'" for st
    using sync_jobs_raises [OF assms(6,7), of st] assms(2-5)
    by (simp add: sync_company_def)
  from sync_companies_raises [OF assms(1) this]
  obtain e' where "sync_companies ev now \<lparr>batch = [], upload_count = 0\<rparr> cs = Inl e'"
    by blast
  from sync_cycle_failed [OF this] show ?thesis by blast
qed

theorem normalization_failure_aborts_witness:
  "''figma'' \<in> set TARGET_COMPANIES
   \<and> requests_get broken_env (jobs_url ''figma'')
       = Inr (ok_response [intern_job, broken_job, office_job])
   \<and> broken_job \<in> set [intern_job, broken_job, office_job]
   \<and> process_job broken_env demo_now ''figma'' \<lparr>batch = [], upload_count = 0\<rparr> broken_job
       = Inl AttributeError
   \<and> (\<exists>e'. sync_scraped_jobs_to_firebase broken_env demo_now empty_store
           = \<lparr>result = Inl (HTTPException 500 e'), store = empty_store, commits = []\<rparr>)"
proof -
  have 1: "''figma'' \<in> set TARGET_COMPANIES" by (simp add: TARGET_COMPANIES_def)
  have 2: "requests_get broken_env (jobs_url ''figma'')
       = Inr (ok_response [intern_job, broken_job, office_job])"
    by (simp add: broken_env_def broken_get_def)
  have 3: "status_code (ok_response [intern_job, broken_job, office_job]) = 200"
    by (simp add: ok_response_def)
  have 4: "json_body (ok_response [intern_job, broken_job, office_job])
             = Inr (JObj [(''jobs'', JArr [intern_job, broken_job, office_job])])"
    by (simp add: ok_response_def)
  have 5: "py_iter (dict_get [(''jobs'', JArr [intern_job, broken_job, office_job])] ''jobs'' (JArr []))
             = Inr [intern_job, broken_job, office_job]"
    by (simp add: dict_get_def)
  have 6: "broken_job \<in> set [intern_job, broken_job, office_job]" by simp
  from normalization_failure_aborts [OF 1 2 3 4 5 6 process_broken, of empty_store] 1 2 6 process_broken
  show ?thesis by (simp add: sync_scraped_jobs_to_firebase_def)
qed

subsection \<open>A failure of one source\<close>

text \<open>
  Claim C2 says that a failure talking to one source, a response that is not 2xx or a
  transport failure, never makes the cycle fail. The status is tested, but the
  exception of \<open>requests.get\<close> is caught only by the handler around the whole cycle:
  with the first board unreachable and the others healthy the cycle fails and commits
  nothing.
\<close>

theorem transport_failure_fails_cycle:
  "result (sync_scraped_jobs_to_firebase down_env demo_now empty_store)
     = Inl (HTTPException 500 (Raised ''ConnectionError''))
   \<and> commits (sync_scraped_jobs_to_firebase down_env demo_now empty_store) = []"
  by (simp add: sync_scraped_jobs_to_firebase_def sync_cycle_def TARGET_COMPANIES_def
      sync_company_def down_env_def down_get_def)

text \<open>
  Claim C2, amended. A response whose status is not 200 makes its source contribute no
  posting: the loop state is unchanged and the cycle ends as if the source were not in
  the list. A transport failure of the request for one source makes the whole cycle
  fail with status 500, with no commit and the store unchanged.
\<close>

theorem source_failure_policy:
  "(requests_get ev (jobs_url c) = Inr resp \<and> status_code resp \<noteq> 200 \<longrightarrow>
      sync_company ev now st c = Inr st
      \<and> sync_cycle ev now (cs1 @ c # cs2) db = sync_cycle ev now (cs1 @ cs2) db)
   \<and> (requests_get ev (jobs_url c) = Inl e \<and> c \<in> set cs \<longrightarrow>
      (\<exists>e'. sync_cycle ev now cs db
           = \<lparr>result = Inl (HTTPException 500 e'), store = db, commits = []\<rparr>))"
proof -
  have a: "sync_company ev now st c = Inr st
      \<and> sync_cycle ev now (cs1 @ c # cs2) db = sync_cycle ev now (cs1 @ cs2) db"
    if r: "requests_get ev (jobs_url c) = Inr resp" and s: "status_code resp \<noteq> 200"
  proof -
    have skip: "sync_company ev now st' c = Inr st'" for st'
      using r s by (rule sync_company_unavailable)
    have "sync_companies ev now \<lparr>batch = [], upload_count = 0\<rparr> (cs1 @ c # cs2)
            = sync_companies ev now \<lparr>batch = [], upload_count = 0\<rparr> (cs1 @ cs2)"
      by (simp add: sync_companies_append skip split: sum.splits)
    then show ?thesis using skip by (simp add: sync_cycle_def)
  qed
  have b: "\<exists>e'. sync_cycle ev now cs db
           = \<lparr>result = Inl (HTTPException 500 e'), store = db, commits = []\<rparr>"
    if r: "requests_get ev (jobs_url c) = Inl e" and m: "c \<in> set cs"
  proof -
    have "\<exists>e'. sync_company ev now st' c = Inl e'" for st'
      using sync_company_transport [OF r] by blast
    from sync_companies_raises [OF m this]
    obtain e' where "sync_companies ev now \<lparr>batch = [], upload_count = 0\<rparr> cs = Inl e'"
      by blast
    from sync_cycle_failed [OF this] show ?thesis by blast
  qed
  from a b show ?thesis by blast
qed

theorem source_failure_policy_witness:
  "requests_get demo_env (jobs_url ''discord'') = Inr unavailable_response
   \<and> status_code unavailable_response \<noteq> 200
   \<and> sync_cycle demo_env demo_now ([''figma''] @ ''discord'' # []) empty_store
       = sync_cycle demo_env demo_now ([''figma''] @ []) empty_store
   \<and> requests_get down_env (jobs_url ''figma'') = Inl (Raised ''ConnectionError'')
   \<and> ''figma'' \<in> set TARGET_COMPANIES
   \<and> (\<exists>e'. sync_cycle down_env demo_now TARGET_COMPANIES empty_store
           = \<lparr>result = Inl (HTTPException 500 e'), store = empty_store, commits = []\<rparr>)"
proof -
  have 1: "requests_get demo_env (jobs_url ''discord'') = Inr unavailable_response"
    by (simp add: demo_env_def demo_get_def url_discord)
  have 2: "status_code unavailable_response \<noteq> 200" by (simp add: unavailable_response_def)
  have 3: "requests_get down_env (jobs_url ''figma'') = Inl (Raised ''ConnectionError'')"
    by (simp add: down_env_def down_get_def)
  have 4: "''figma'' \<in> set TARGET_COMPANIES" by (simp add: TARGET_COMPANIES_def)
  from source_failure_policy [of demo_env "''discord''" unavailable_response demo_now _
      "[''figma'']" "[]" empty_store] 1 2
  have 5: "sync_cycle demo_env demo_now ([''figma''] @ ''discord'' # []) empty_store
       = sync_cycle demo_env demo_now ([''figma''] @ []) empty_store"
    by blast
  from source_failure_policy [of down_env "''figma''" _ demo_now _ _ _ empty_store
      "Raised ''ConnectionError''" TARGET_COMPANIES] 3 4
  have 6: "\<exists>e'. sync_cycle down_env demo_now TARGET_COMPANIES empty_store
           = \<lparr>result = Inl (HTTPException 500 e'), store = empty_store, commits = []\<rparr>"
    by blast
  from 1 2 3 4 5 6 show ?thesis by blast
qed

end
